theory Spec2Isabelle
  imports Complex_Main
begin

section \<open>The PMI sentiment pipeline of \<^verbatim>\<open>run_pmi_reddit.py\<close>\<close>

text \<open>
  The script is one straight-line chain of dataframe transformations. A dataframe is
  modelled as the list of its rows; a nullable cell is an \<open>option\<close> (\<open>None\<close> is SQL
  null). The engine fixes no row order for a grouped or joined table, so the list order
  of an intermediate table is one representative and the theorems below speak about the
  rows a table holds, not about their position.

  Counts are the engine's 64-bit integers, far from overflow for any corpus that fits a
  machine, and are modelled as \<open>nat\<close>. The double-precision columns are modelled as
  \<open>real\<close>: the theorems are about the arithmetic the script writes down, not about
  rounding. A comment is a \<open>string\<close> whose elements are its characters.

  The stop word list of the library's \<open>StopWordsRemover\<close> is not part of the
  repository; it is the parameter \<open>sw\<close> throughout.
\<close>

subsection \<open>Characters\<close>

definition is_alpha :: "char \<Rightarrow> bool" where
  \<comment> \<open>the regex class \<open>a-zA-Z\<close>\<close>
  "is_alpha c = (let n = (of_char c :: nat) in (65 \<le> n \<and> n \<le> 90) \<or> (97 \<le> n \<and> n \<le> 122))"

definition is_space :: "char \<Rightarrow> bool" where
  \<comment> \<open>the regex class \<open>\s\<close>: space, tab, line feed, vertical tab, form feed, carriage return\<close>
  "is_space c = (let n = (of_char c :: nat) in n = 32 \<or> (9 \<le> n \<and> n \<le> 13))"

definition lower_char :: "char \<Rightarrow> char" where
  "lower_char c = (let n = (of_char c :: nat) in if 65 \<le> n \<and> n \<le> 90 then char_of (n + 32) else c)"

subsection \<open>Cleaning and tokenising (source lines 45 to 70)\<close>

definition df_clean :: "string option list \<Rightarrow> string option list" where
  \<comment> \<open>\<open>df.filter(col("comment").isNotNull()).filter(length(col("comment")) > 20)\<close>;
      a filter keeps a row only when its condition is true, and the length of null is null\<close>
  "df_clean df =
     filter (\<lambda>comment. case comment of None \<Rightarrow> False | Some s \<Rightarrow> 20 < length s)
       (filter (\<lambda>comment. comment \<noteq> None) df)"

definition regexp_replace_nonalpha :: "string \<Rightarrow> string" where
  \<comment> \<open>\<open>regexp_replace(col("comment"), "[^a-zA-Z\\s]", " ")\<close>\<close>
  "regexp_replace_nonalpha s = map (\<lambda>c. if is_alpha c \<or> is_space c then c else CHR '' '') s"

definition lower :: "string \<Rightarrow> string" where
  "lower s = map lower_char s"

definition trim :: "string \<Rightarrow> string" where
  \<comment> \<open>removes the space characters at both ends\<close>
  "trim s = rev (dropWhile (\<lambda>c. c = CHR '' '') (rev (dropWhile (\<lambda>c. c = CHR '' '') s)))"

function split_ws :: "string \<Rightarrow> string list" where
  \<comment> \<open>\<open>split(_, "\\s+")\<close> with the default limit -1: the pieces between maximal runs of
      white space, an empty piece kept at either end\<close>
  "split_ws s =
     (case dropWhile (\<lambda>c. \<not> is_space c) s of
        [] \<Rightarrow> [s]
      | _ # rest \<Rightarrow> takeWhile (\<lambda>c. \<not> is_space c) s # split_ws (dropWhile is_space rest))"
  by pat_completeness auto
termination
proof (relation "measure length")
  show "wf (measure length)" by simp
next
  fix s :: string and x rest
  assume h: "dropWhile (\<lambda>c. \<not> is_space c) s = x # rest"
  have "length (dropWhile is_space rest) \<le> length rest"
    by (rule length_dropWhile_le)
  moreover have "length (x # rest) \<le> length s"
    unfolding h [symmetric] by (rule length_dropWhile_le)
  ultimately show "(dropWhile is_space rest, s) \<in> measure length"
    by simp
qed

definition text_col :: "string option \<Rightarrow> string option" where
  \<comment> \<open>column \<open>text\<close>: \<open>lower(regexp_replace(comment, ...))\<close>\<close>
  "text_col comment = map_option (\<lambda>s. lower (regexp_replace_nonalpha s)) comment"

definition tokens_col :: "string option \<Rightarrow> string list option" where
  \<comment> \<open>column \<open>tokens\<close>: \<open>split(trim(col("text")), "\\s+")\<close>\<close>
  "tokens_col comment = map_option (\<lambda>t. split_ws (trim t)) (text_col comment)"

definition stopwords_remover :: "string list \<Rightarrow> string list \<Rightarrow> string list" where
  \<comment> \<open>\<open>StopWordsRemover\<close> with its default case-insensitive comparison\<close>
  "stopwords_remover sw ts = filter (\<lambda>t. lower t \<notin> set (map lower sw)) ts"

definition clean_tokens_col :: "string list \<Rightarrow> string option \<Rightarrow> string list option" where
  "clean_tokens_col sw comment = map_option (stopwords_remover sw) (tokens_col comment)"

subsection \<open>Word frequency (source lines 76 to 99)\<close>

definition custom_noise_words :: "string list" where
  "custom_noise_words =
    [''im'', ''ive'', ''dont'', ''didnt'', ''thats'', ''theres'', ''cant'', ''doesnt'',
     ''also'', ''really'', ''much'', ''many'', ''one'', ''even'', ''still'', ''lot'',
     ''way'', ''got'', ''get'', ''going'', ''go'', ''say'', ''see'', ''know'', ''think'',
     '''', ''would'', ''could'', ''just'', ''like'', ''game'', ''games'', ''play'',
     ''played'', ''playing'', ''its'', ''thats'', ''youre'', ''theyre'', ''weve'']"

fun is_prefix :: "string \<Rightarrow> string \<Rightarrow> bool" where
  "is_prefix [] s = True"
| "is_prefix (p # ps) [] = False"
| "is_prefix (p # ps) (c # cs) = (p = c \<and> is_prefix ps cs)"

fun rlike :: "string \<Rightarrow> string \<Rightarrow> bool" where
  \<comment> \<open>\<open>col.rlike(pat)\<close> for a pattern of plain letters: \<open>pat\<close> occurs somewhere in the word\<close>
  "rlike [] pat = (pat = [])"
| "rlike (c # cs) pat = (is_prefix pat (c # cs) \<or> rlike cs pat)"

definition explode :: "'a list option list \<Rightarrow> 'a list" where
  \<comment> \<open>one row per array element; a null or empty array gives no row\<close>
  "explode col = concat (map (\<lambda>cell. case cell of None \<Rightarrow> [] | Some xs \<Rightarrow> xs) col)"

definition word_filters :: "string list \<Rightarrow> string list" where
  \<comment> \<open>the five filters of \<open>clean_words_df\<close>, in the order of the source\<close>
  "word_filters ws =
     filter (\<lambda>w. \<not> rlike w ''https'')
       (filter (\<lambda>w. \<not> rlike w ''www'')
         (filter (\<lambda>w. \<not> rlike w ''http'')
           (filter (\<lambda>w. 2 < length w)
             (filter (\<lambda>w. w \<notin> set custom_noise_words) ws))))"

definition clean_words_df :: "string list \<Rightarrow> string option list \<Rightarrow> string list" where
  \<comment> \<open>column \<open>word\<close> of \<open>clean_words_df\<close>\<close>
  "clean_words_df sw df = word_filters (explode (map (clean_tokens_col sw) (df_clean df)))"


subsection \<open>Grouping, sorting, joining\<close>

definition group_count :: "string list \<Rightarrow> (string \<times> nat) list" where
  \<comment> \<open>\<open>groupBy("word").count()\<close>: one row per distinct word, with its number of occurrences\<close>
  "group_count ws = map (\<lambda>w. (w, count_list ws w)) (remdups ws)"

fun insort_by :: "('a \<Rightarrow> 'a \<Rightarrow> bool) \<Rightarrow> 'a \<Rightarrow> 'a list \<Rightarrow> 'a list" where
  "insort_by before x [] = [x]"
| "insort_by before x (y # ys) = (if before x y then x # y # ys else y # insort_by before x ys)"

definition order_by :: "('a \<Rightarrow> 'a \<Rightarrow> bool) \<Rightarrow> 'a list \<Rightarrow> 'a list" where
  \<comment> \<open>\<open>orderBy\<close>: the rows sorted by the given comparison. Rows with equal keys stay in
      list order, which for a grouped table is only one representative: the model does
      not determine the order of tied rows in a saved table.\<close>
  "order_by before rows = foldr (insort_by before) rows []"

definition asc_nulls_first :: "real option \<Rightarrow> real option \<Rightarrow> bool" where
  "asc_nulls_first a b =
     (case a of None \<Rightarrow> True | Some x \<Rightarrow> (case b of None \<Rightarrow> False | Some y \<Rightarrow> x \<le> y))"

definition desc_nulls_last :: "real option \<Rightarrow> real option \<Rightarrow> bool" where
  "desc_nulls_last a b = asc_nulls_first b a"

definition left_join :: "(string \<times> 'a) list \<Rightarrow> (string \<times> 'b) list \<Rightarrow> (string \<times> 'a \<times> 'b option) list" where
  \<comment> \<open>\<open>l.join(r, "word", "left")\<close>: every row of \<open>l\<close> once per matching row of \<open>r\<close>, and once
      with null when nothing matches\<close>
  "left_join l r =
     concat (map (\<lambda>(w, a).
       (case filter (\<lambda>(w', b). w' = w) r of
          [] \<Rightarrow> [(w, a, None)]
        | ms \<Rightarrow> map (\<lambda>(w', b). (w, a, Some b)) ms)) l)"

definition na_fill_0 :: "nat option \<Rightarrow> nat" where
  "na_fill_0 cell = (case cell of None \<Rightarrow> 0 | Some v \<Rightarrow> v)"

subsection \<open>Nullable double columns\<close>

text \<open>
  A division whose divisor is zero and a logarithm of a non-positive number give null
  (under the engine's strict arithmetic mode the division raises instead): \<open>None\<close>
  stands for both, and a cell that is \<open>Some\<close> was computed without either.
\<close>

definition lit :: "nat \<Rightarrow> real option" where
  "lit n = Some (real n)"

definition col_div :: "real option \<Rightarrow> real option \<Rightarrow> real option" where
  "col_div a b =
     (case a of None \<Rightarrow> None
      | Some x \<Rightarrow> (case b of None \<Rightarrow> None | Some y \<Rightarrow> if y = 0 then None else Some (x / y)))"

definition col_mul :: "real option \<Rightarrow> real option \<Rightarrow> real option" where
  "col_mul a b =
     (case a of None \<Rightarrow> None | Some x \<Rightarrow> (case b of None \<Rightarrow> None | Some y \<Rightarrow> Some (x * y)))"

definition col_sub :: "real option \<Rightarrow> real option \<Rightarrow> real option" where
  "col_sub a b =
     (case a of None \<Rightarrow> None | Some x \<Rightarrow> (case b of None \<Rightarrow> None | Some y \<Rightarrow> Some (x - y)))"

definition log2 :: "real option \<Rightarrow> real option" where
  "log2 a = (case a of None \<Rightarrow> None | Some x \<Rightarrow> if x \<le> 0 then None else Some (log 2 x))"

subsection \<open>Frequency tables and totals (source lines 108 to 148)\<close>

definition word_freq_clean :: "string list \<Rightarrow> (string \<times> nat) list" where
  \<comment> \<open>\<open>clean_words_df.groupBy("word").count().orderBy(col("count").desc())\<close>\<close>
  "word_freq_clean ws = order_by (\<lambda>a b. snd b \<le> snd a) (group_count ws)"

definition positive_words :: "string list" where
  "positive_words =
    [''good'', ''great'', ''love'', ''amazing'', ''fun'', ''best'',
     ''better'', ''awesome'', ''excellent'', ''beautiful'', ''perfect'',
     ''incredible'', ''fantastic'', ''wonderful'', ''enjoy'', ''enjoyed'']"

definition negative_words :: "string list" where
  "negative_words =
    [''bad'', ''terrible'', ''awful'', ''worst'', ''boring'',
     ''hate'', ''issue'', ''problem'', ''disappointing'', ''broken'',
     ''bug'', ''bugs'', ''glitch'', ''crash'', ''frustrating'', ''repetitive'']"

definition total_tokens :: "string list \<Rightarrow> nat" where
  \<comment> \<open>\<open>clean_words_df.count()\<close>\<close>
  "total_tokens ws = length ws"

definition word_counts :: "string list \<Rightarrow> (string \<times> nat) list" where
  "word_counts ws = group_count ws"

definition isin_counts :: "string list \<Rightarrow> string list \<Rightarrow> (string \<times> nat) list" where
  \<comment> \<open>\<open>clean_words_df.filter(col("word").isin(lexicon)).groupBy("word").count()\<close>\<close>
  "isin_counts lexicon ws = group_count (filter (\<lambda>w. w \<in> set lexicon) ws)"

definition pos_counts :: "string list \<Rightarrow> (string \<times> nat) list" where
  "pos_counts ws = isin_counts positive_words ws"

definition neg_counts :: "string list \<Rightarrow> (string \<times> nat) list" where
  "neg_counts ws = isin_counts negative_words ws"

datatype error = IndexError

definition agg_sum :: "(string \<times> nat) list \<Rightarrow> nat option list" where
  \<comment> \<open>\<open>agg({"...": "sum"})\<close>: a table of one row and one cell, null when there is no row to sum\<close>
  "agg_sum t = [if t = [] then None else Some (sum_list (map snd t))]"

definition collect_0_0 :: "'a list \<Rightarrow> error + 'a" where
  \<comment> \<open>\<open>.collect()[0][0]\<close>\<close>
  "collect_0_0 rows = (case rows of [] \<Rightarrow> Inl IndexError | cell # _ \<Rightarrow> Inr cell)"

definition or_1 :: "nat option \<Rightarrow> nat" where
  \<comment> \<open>Python's \<open>x or 1\<close>: 1 when \<open>x\<close> is \<open>None\<close> or 0\<close>
  "or_1 x = (case x of None \<Rightarrow> 1 | Some v \<Rightarrow> if v = 0 then 1 else v)"

definition total_of :: "(string \<times> nat) list \<Rightarrow> error + nat" where
  \<comment> \<open>\<open>t.agg({"...": "sum"}).collect()[0][0] or 1\<close>\<close>
  "total_of t = (case collect_0_0 (agg_sum t) of Inl e \<Rightarrow> Inl e | Inr x \<Rightarrow> Inr (or_1 x))"

subsection \<open>PMI with smoothing (source lines 150 to 177)\<close>

definition alpha :: nat where
  "alpha = 1"

record pmi_row =
  word :: string
  context_count :: nat
  pos_count :: nat
  neg_count :: nat
  pos_count_s :: nat
  neg_count_s :: nat
  p_w :: "real option"
  p_pos :: "real option"
  p_neg :: "real option"
  p_w_pos_s :: "real option"
  p_w_neg_s :: "real option"
  pmi_positive :: "real option"
  pmi_negative :: "real option"
  sentiment_score :: "real option"

definition with_columns :: "nat \<Rightarrow> nat \<Rightarrow> nat \<Rightarrow> string \<times> nat \<times> nat \<times> nat \<Rightarrow> pmi_row" where
  \<comment> \<open>the chain of \<open>withColumn\<close> calls on one joined and filled row\<close>
  "with_columns tot tpos tneg row =
     (case row of (w, c, p, n) \<Rightarrow>
        let ps = p + alpha;
            ns = n + alpha;
            pw = col_div (lit c) (lit tot);
            ppos = col_div (lit tpos) (lit tot);
            pneg = col_div (lit tneg) (lit tot);
            pwpos = col_div (lit ps) (lit tot);
            pwneg = col_div (lit ns) (lit tot);
            pmip = log2 (col_div pwpos (col_mul pw ppos));
            pmin = log2 (col_div pwneg (col_mul pw pneg))
        in \<lparr>word = w, context_count = c, pos_count = p, neg_count = n,
            pos_count_s = ps, neg_count_s = ns, p_w = pw, p_pos = ppos, p_neg = pneg,
            p_w_pos_s = pwpos, p_w_neg_s = pwneg, pmi_positive = pmip, pmi_negative = pmin,
            sentiment_score = col_sub pmip pmin\<rparr>)"

definition joined_filled :: "string list \<Rightarrow> string list \<Rightarrow> string list \<Rightarrow> (string \<times> nat \<times> nat \<times> nat) list" where
  \<comment> \<open>\<open>word_counts.join(pos_counts, "word", "left").join(neg_counts, "word", "left").na.fill(0)\<close>\<close>
  "joined_filled posl negl ws =
     map (\<lambda>(w, (c, p), n). (w, c, na_fill_0 p, na_fill_0 n))
       (left_join (left_join (word_counts ws) (isin_counts posl ws)) (isin_counts negl ws))"

definition pmi_table :: "string list \<Rightarrow> string list \<Rightarrow> string list \<Rightarrow> error + pmi_row list" where
  \<comment> \<open>\<open>pmi_df\<close> for the lexicons \<open>posl\<close> and \<open>negl\<close>, after the two totals have been collected\<close>
  "pmi_table posl negl ws =
     (case total_of (isin_counts posl ws) of
        Inl e \<Rightarrow> Inl e
      | Inr tpos \<Rightarrow>
          (case total_of (isin_counts negl ws) of
             Inl e \<Rightarrow> Inl e
           | Inr tneg \<Rightarrow>
               Inr (map (with_columns (total_tokens ws) tpos tneg) (joined_filled posl negl ws))))"

definition pmi_df :: "string list \<Rightarrow> string option list \<Rightarrow> error + pmi_row list" where
  "pmi_df sw df = pmi_table positive_words negative_words (clean_words_df sw df)"

subsection \<open>Filtering and ranking (source lines 183 to 220)\<close>

definition ambiguous_words :: "string list" where
  "ambiguous_words =
    [''never'', ''since'', ''think'', ''going'', ''way'', ''say'', ''something'', ''put'',
     ''actually'', ''still'', ''see'', ''odyssey'', ''shadows'', ''assassin'', ''creed'',
     ''understand'', ''buy'', ''japanese'', ''thing'', ''video'', ''channel'',
     ''missions'', ''much'', ''want'', ''know'', ''people'', ''ubisoft'', ''naoe'', ''yasuke'',
     ''time'', ''first'', ''new'', ''world'', ''feel'', ''combat'', ''stealth'', ''series'',
     ''make'', ''well'', ''main'', ''hours'', ''feels'', ''back'', ''japan'', ''story'',
     ''character'', ''characters'', ''graphics'', ''gameplay'']"

definition pmi_filtered :: "pmi_row list \<Rightarrow> pmi_row list" where
  "pmi_filtered rows =
     filter (\<lambda>r. word r \<notin> set ambiguous_words) (filter (\<lambda>r. 5 \<le> context_count r) rows)"

definition select_cols :: "pmi_row \<Rightarrow> string \<times> nat \<times> real option" where
  \<comment> \<open>\<open>select("word", "context_count", "sentiment_score")\<close>\<close>
  "select_cols r = (word r, context_count r, sentiment_score r)"

definition top_pos :: "pmi_row list \<Rightarrow> (string \<times> nat \<times> real option) list" where
  "top_pos rows =
     take 10 (map select_cols
       (order_by (\<lambda>a b. desc_nulls_last (sentiment_score a) (sentiment_score b)) (pmi_filtered rows)))"

definition top_neg :: "pmi_row list \<Rightarrow> (string \<times> nat \<times> real option) list" where
  "top_neg rows =
     take 10 (map select_cols
       (order_by (\<lambda>a b. asc_nulls_first (sentiment_score a) (sentiment_score b)) (pmi_filtered rows)))"

record outputs =
  reddit_pmi_positive :: "(string \<times> nat \<times> real option) list"
  reddit_pmi_negative :: "(string \<times> nat \<times> real option) list"
  reddit_word_freq :: "(string \<times> nat) list"

definition run_pmi_reddit :: "string list \<Rightarrow> string option list \<Rightarrow> error + outputs" where
  \<comment> \<open>the three tables the script saves, or the error it stops with\<close>
  "run_pmi_reddit sw df =
     (case pmi_df sw df of
        Inl e \<Rightarrow> Inl e
      | Inr rows \<Rightarrow>
          Inr \<lparr>reddit_pmi_positive = top_pos rows,
               reddit_pmi_negative = top_neg rows,
               reddit_word_freq = take 100 (word_freq_clean (clean_words_df sw df))\<rparr>)"

subsection \<open>The scoring formula as the specification writes it\<close>

text \<open>
  These follow the words of the specification, not the source: \<open>table[t]\<close> with 0 for an
  absent token, the sum of a table's counts, a total that defaults to 1 when it is zero,
  and the smoothed score with \<open>\<alpha> = 1\<close>.
\<close>

definition lookup_0 :: "(string \<times> nat) list \<Rightarrow> string \<Rightarrow> nat" where
  "lookup_0 t w = (case map_of t w of None \<Rightarrow> 0 | Some v \<Rightarrow> v)"

definition sum_counts :: "(string \<times> nat) list \<Rightarrow> nat" where
  "sum_counts t = sum_list (map snd t)"

definition default_1 :: "nat \<Rightarrow> nat" where
  "default_1 n = (if n = 0 then 1 else n)"

definition spec_pmi :: "nat \<Rightarrow> nat \<Rightarrow> nat \<Rightarrow> nat \<Rightarrow> real" where
  "spec_pmi k c N T = log 2 (((real k + 1) / real N) / ((real c / real N) * (real T / real N)))"

definition spec_sentiment_score :: "nat \<Rightarrow> nat \<Rightarrow> nat \<Rightarrow> nat \<Rightarrow> nat \<Rightarrow> nat \<Rightarrow> real" where
  "spec_sentiment_score c p n N P Q = spec_pmi p c N P - spec_pmi n c N Q"

subsection \<open>Closed forms used in the proofs\<close>

definition lex_count :: "string list \<Rightarrow> string list \<Rightarrow> string \<Rightarrow> nat" where
  "lex_count lexicon ws w = (if w \<in> set lexicon then count_list ws w else 0)"

definition lex_total :: "string list \<Rightarrow> string list \<Rightarrow> nat" where
  "lex_total lexicon ws = or_1 (if isin_counts lexicon ws = [] then None else Some (sum_list (map snd (isin_counts lexicon ws))))"

subsection \<open>A sample corpus\<close>

definition sample_df :: "string option list" where
  "sample_df = [Some ''good good good good good bad bad bad bad'', None]"

definition sample_ws :: "string list" where
  "sample_ws = [''good'', ''good'', ''good'', ''good'', ''good'', ''bad'', ''bad'', ''bad'', ''bad'']"

text \<open>The two-comment corpus of the specification's scenario, and a comment of exactly 20 characters.\<close>

definition c2_corpus :: "string option list" where
  "c2_corpus = [Some ''good game good'', Some ''bad game bad'']"

definition short_comment :: string where
  "short_comment = ''good good good good.''"

section \<open>Properties of the tables\<close>

subsection \<open>Cleaning\<close>

lemma df_clean_drop:
  assumes "comment = None \<or> (\<exists>s. comment = Some s \<and> length s \<le> 20)"
  shows "df_clean (before @ comment # after) = df_clean (before @ after)"
  using assms by (auto simp: df_clean_def)

lemma clean_words_df_cong:
  "df_clean df = df_clean df' \<Longrightarrow> clean_words_df sw df = clean_words_df sw df'"
  by (simp add: clean_words_df_def)

lemma clean_words_df_empty: "df_clean df = [] \<Longrightarrow> clean_words_df sw df = []"
  by (simp add: clean_words_df_def explode_def word_filters_def)

subsection \<open>Grouped counts and joins\<close>

lemma filter_key_distinct:
  "distinct (map fst r) \<Longrightarrow>
   filter (\<lambda>(w', b). w' = w) r = (case map_of r w of None \<Rightarrow> [] | Some b \<Rightarrow> [(w, b)])"
proof (induction r)
  case Nil
  then show ?case by simp
next
  case (Cons x r)
  obtain k v where x: "x = (k, v)" by (cases x)
  show ?case
  proof (cases "k = w")
    case True
    with Cons.prems x have "w \<notin> fst ` set r" by auto
    then have "map_of r w = None" by (simp add: map_of_eq_None_iff)
    with Cons x True show ?thesis by simp
  next
    case False
    with Cons x show ?thesis by simp
  qed
qed

lemma left_join_distinct:
  assumes "distinct (map fst r)"
  shows "left_join l r = map (\<lambda>(w, a). (w, a, map_of r w)) l"
proof -
  have "(case filter (\<lambda>(w', b). w' = w) r of
          [] \<Rightarrow> [(w, a, None)]
        | ms \<Rightarrow> map (\<lambda>(w', b). (w, a, Some b)) ms) = [(w, a, map_of r w)]" for w and a :: 'b
    by (simp add: filter_key_distinct [OF assms] split: option.split)
  then show ?thesis
    unfolding left_join_def by (induction l) auto
qed

lemma distinct_group_count: "distinct (map fst (group_count ws))"
  by (simp add: group_count_def comp_def)

lemma map_of_group_count:
  "map_of (group_count ws) w = (if w \<in> set ws then Some (count_list ws w) else None)"
proof -
  have "map_of (map (\<lambda>k. (k, f k)) ks) w = (if w \<in> set ks then Some (f w) else None)"
    for f :: "string \<Rightarrow> nat" and ks
    by (induction ks) auto
  then show ?thesis by (simp add: group_count_def)
qed

lemma group_count_mem:
  "(w, k) \<in> set (group_count ws) \<longleftrightarrow> w \<in> set ws \<and> k = count_list ws w"
  by (auto simp: group_count_def)

lemma count_list_filter:
  "count_list (filter P ws) w = (if P w then count_list ws w else 0)"
  by (induction ws) auto

lemma count_list_pos: "w \<in> set ws \<Longrightarrow> 0 < count_list ws w"
  using count_list_0_iff [of ws w] by auto

lemma sum_group_count: "sum_list (map snd (group_count ws)) = length ws"
proof -
  have "sum_list (map snd (group_count ws)) = sum_list (map (count_list ws) (remdups ws))"
    by (simp add: group_count_def comp_def)
  also have "\<dots> = sum (count_list ws) (set ws)"
    by (simp add: sum_list_distinct_conv_sum_set)
  also have "\<dots> = length ws"
    by (rule sum_count_set) simp_all
  finally show ?thesis .
qed

lemma fill_isin_counts:
  "na_fill_0 (map_of (isin_counts lexicon ws) w) = lex_count lexicon ws w"
  by (auto simp: na_fill_0_def isin_counts_def map_of_group_count count_list_filter lex_count_def count_list_0_iff)

lemma lex_count_le: "lex_count lexicon ws w \<le> count_list ws w"
  by (simp add: lex_count_def)

lemma isin_counts_mem:
  assumes "(w, k) \<in> set (isin_counts lexicon ws)"
  shows "(w, count_list ws w) \<in> set (word_counts ws) \<and> k \<le> count_list ws w"
  using assms
  by (auto simp: isin_counts_def word_counts_def group_count_mem count_list_filter)

lemma joined_filled_eq:
  "joined_filled posl negl ws =
     map (\<lambda>w. (w, count_list ws w, lex_count posl ws w, lex_count negl ws w)) (remdups ws)"
  unfolding joined_filled_def isin_counts_def
  apply (simp add: left_join_distinct distinct_group_count)
  apply (simp add: word_counts_def group_count_def comp_def fill_isin_counts [unfolded isin_counts_def group_count_def comp_def])
  done

lemma lookup_word_counts: "lookup_0 (word_counts ws) w = count_list ws w"
  by (simp add: lookup_0_def word_counts_def map_of_group_count count_list_0_iff)

lemma lookup_isin_counts: "lookup_0 (isin_counts lexicon ws) w = lex_count lexicon ws w"
  using fill_isin_counts [of lexicon ws w] by (simp add: lookup_0_def na_fill_0_def)

lemma sum_word_counts: "sum_counts (word_counts ws) = length ws"
  by (simp add: sum_counts_def word_counts_def sum_group_count)

subsection \<open>Totals\<close>

lemma total_of_eq:
  "total_of t = Inr (or_1 (if t = [] then None else Some (sum_list (map snd t))))"
  by (simp add: total_of_def agg_sum_def collect_0_0_def)

lemma total_of_empty: "total_of [] = Inr 1"
  by (simp add: total_of_eq or_1_def)

lemma or_1_pos: "0 < or_1 x"
  by (cases x) (simp_all add: or_1_def)

lemma lex_total_pos: "0 < lex_total lexicon ws"
  unfolding lex_total_def by (rule or_1_pos)

lemma lex_total_default: "lex_total lexicon ws = default_1 (sum_counts (isin_counts lexicon ws))"
  by (simp add: lex_total_def or_1_def default_1_def sum_counts_def)

lemma total_of_isin: "total_of (isin_counts lexicon ws) = Inr (lex_total lexicon ws)"
  by (simp add: total_of_eq lex_total_def)

subsection \<open>The scored table\<close>

lemma pmi_table_eq:
  "pmi_table posl negl ws =
     Inr (map (\<lambda>w. with_columns (length ws) (lex_total posl ws) (lex_total negl ws)
                   (w, count_list ws w, lex_count posl ws w, lex_count negl ws w)) (remdups ws))"
  by (simp add: pmi_table_def total_of_eq joined_filled_eq total_tokens_def lex_total_def comp_def)

lemma pmi_table_total: "\<exists>rows. pmi_table posl negl ws = Inr rows"
  unfolding pmi_table_eq by blast

lemma pmi_table_empty: "pmi_table posl negl [] = Inr []"
  by (simp add: pmi_table_eq)

lemma with_columns_word: "word (with_columns N P Q (w, c, p, n)) = w"
  by (simp add: with_columns_def Let_def)

lemma with_columns_counts:
  "context_count (with_columns N P Q (w, c, p, n)) = c"
  "pos_count (with_columns N P Q (w, c, p, n)) = p"
  "neg_count (with_columns N P Q (w, c, p, n)) = n"
  "pos_count_s (with_columns N P Q (w, c, p, n)) = p + alpha"
  "neg_count_s (with_columns N P Q (w, c, p, n)) = n + alpha"
  by (simp_all add: with_columns_def Let_def)

lemma with_columns_probs:
  assumes "0 < N"
  shows "p_w (with_columns N P Q (w, c, p, n)) = Some (real c / real N)"
    "p_pos (with_columns N P Q (w, c, p, n)) = Some (real P / real N)"
    "p_neg (with_columns N P Q (w, c, p, n)) = Some (real Q / real N)"
    "p_w_pos_s (with_columns N P Q (w, c, p, n)) = Some (real (p + alpha) / real N)"
    "p_w_neg_s (with_columns N P Q (w, c, p, n)) = Some (real (n + alpha) / real N)"
  using assms by (simp_all add: with_columns_def Let_def col_div_def lit_def)

lemma log2_pmi:
  assumes "0 < c" "0 < N" "0 < T"
  shows "log2 (col_div (col_div (lit (k + alpha)) (lit N)) (col_mul (col_div (lit c) (lit N)) (col_div (lit T) (lit N))))
         = Some (spec_pmi k c N T)"
  using assms by (simp add: log2_def col_div_def col_mul_def lit_def alpha_def spec_pmi_def not_le add.commute)

lemma with_columns_pmi:
  assumes "0 < c" "0 < N" "0 < P" "0 < Q"
  shows "pmi_positive (with_columns N P Q (w, c, p, n)) = Some (spec_pmi p c N P)"
    "pmi_negative (with_columns N P Q (w, c, p, n)) = Some (spec_pmi n c N Q)"
  using assms by (simp_all add: with_columns_def Let_def log2_pmi)

lemma with_columns_score:
  assumes "0 < c" "0 < N" "0 < P" "0 < Q"
  shows "sentiment_score (with_columns N P Q (w, c, p, n)) = Some (spec_sentiment_score c p n N P Q)"
  using assms by (simp add: with_columns_def Let_def log2_pmi col_sub_def spec_sentiment_score_def)

lemma col_sub_swap: "col_sub b a = map_option uminus (col_sub a b)"
  by (simp add: col_sub_def split: option.split)

lemma with_columns_swap:
  "sentiment_score (with_columns N Q P (w, c, n, p)) =
     map_option uminus (sentiment_score (with_columns N P Q (w, c, p, n)))"
  unfolding with_columns_def Let_def prod.case pmi_row.simps by (rule col_sub_swap)

lemma pmi_table_row:
  assumes "pmi_table posl negl ws = Inr rows" "r \<in> set rows"
  shows "word r \<in> set ws \<and>
         r = with_columns (length ws) (lex_total posl ws) (lex_total negl ws)
               (word r, count_list ws (word r), lex_count posl ws (word r), lex_count negl ws (word r))"
proof -
  from assms obtain w where w: "w \<in> set ws"
    and r: "r = with_columns (length ws) (lex_total posl ws) (lex_total negl ws)
               (w, count_list ws w, lex_count posl ws w, lex_count negl ws w)"
    unfolding pmi_table_eq by auto
  have "word r = w" unfolding r by (simp add: with_columns_def Let_def)
  with w r show ?thesis by simp
qed

lemma pmi_table_has_row:
  assumes "pmi_table posl negl ws = Inr rows" and "w \<in> set ws"
  shows "\<exists>r \<in> set rows. word r = w \<and> context_count r = count_list ws w"
proof -
  let ?f = "\<lambda>w. with_columns (length ws) (lex_total posl ws) (lex_total negl ws)
                   (w, count_list ws w, lex_count posl ws w, lex_count negl ws w)"
  from assms(1) have "rows = map ?f (remdups ws)" unfolding pmi_table_eq by simp
  with assms(2) have "?f w \<in> set rows" by simp
  moreover have "word (?f w) = w" "context_count (?f w) = count_list ws w"
    by (simp_all add: with_columns_word with_columns_counts)
  ultimately show ?thesis by blast
qed

lemma pmi_table_swap:
  "\<exists>rows rows'. pmi_table posl negl ws = Inr rows \<and> pmi_table negl posl ws = Inr rows' \<and>
     map word rows' = map word rows \<and>
     map sentiment_score rows' = map (\<lambda>r. map_option uminus (sentiment_score r)) rows"
proof -
  let ?f = "\<lambda>w. with_columns (length ws) (lex_total posl ws) (lex_total negl ws)
                   (w, count_list ws w, lex_count posl ws w, lex_count negl ws w)"
  let ?g = "\<lambda>w. with_columns (length ws) (lex_total negl ws) (lex_total posl ws)
                   (w, count_list ws w, lex_count negl ws w, lex_count posl ws w)"
  have w: "map word (map ?g (remdups ws)) = map word (map ?f (remdups ws))"
    by (simp add: with_columns_word)
  have "sentiment_score (?g w) = map_option uminus (sentiment_score (?f w))" for w
    by (rule with_columns_swap)
  then have s: "map sentiment_score (map ?g (remdups ws)) =
      map (\<lambda>r. map_option uminus (sentiment_score r)) (map ?f (remdups ws))"
    by (simp only: map_map comp_def)
  from w s show ?thesis unfolding pmi_table_eq by blast
qed

lemma pmi_table_score_not_null:
  assumes "pmi_table posl negl ws = Inr rows"
  shows "None \<notin> set (map sentiment_score rows)"
proof
  assume "None \<in> set (map sentiment_score rows)"
  then obtain r where r: "r \<in> set rows" and n: "sentiment_score r = None" by auto
  from pmi_table_row [OF assms r] obtain
    w: "word r \<in> set ws" and
    e: "r = with_columns (length ws) (lex_total posl ws) (lex_total negl ws)
               (word r, count_list ws (word r), lex_count posl ws (word r), lex_count negl ws (word r))"
    by blast
  from w have N: "0 < length ws" by (cases ws) auto
  have "sentiment_score r \<noteq> None"
    by (subst e) (simp add: with_columns_score [OF count_list_pos [OF w] N lex_total_pos lex_total_pos])
  with n show False by simp
qed

subsection \<open>Filtering and ranking\<close>

lemma set_insort_by: "set (insort_by before x ys) = insert x (set ys)"
  by (induction ys) auto

lemma set_order_by: "set (order_by before rows) = set rows"
  unfolding order_by_def by (induction rows) (simp_all add: set_insort_by)

lemma length_insort_by: "length (insort_by before x ys) = Suc (length ys)"
  by (induction ys) auto

lemma length_order_by: "length (order_by before rows) = length rows"
  unfolding order_by_def by (induction rows) (simp_all add: length_insort_by)

lemma pmi_filtered_mem:
  "r \<in> set (pmi_filtered rows) \<longleftrightarrow>
     r \<in> set rows \<and> 5 \<le> context_count r \<and> word r \<notin> set ambiguous_words"
  by (auto simp: pmi_filtered_def)

lemma top_pos_subset: "set (top_pos rows) \<subseteq> select_cols ` set (pmi_filtered rows)"
proof -
  have "set (top_pos rows) \<subseteq> set (map select_cols
       (order_by (\<lambda>a b. desc_nulls_last (sentiment_score a) (sentiment_score b)) (pmi_filtered rows)))"
    unfolding top_pos_def by (rule set_take_subset)
  then show ?thesis by (simp add: set_order_by)
qed

lemma top_neg_subset: "set (top_neg rows) \<subseteq> select_cols ` set (pmi_filtered rows)"
proof -
  have "set (top_neg rows) \<subseteq> set (map select_cols
       (order_by (\<lambda>a b. asc_nulls_first (sentiment_score a) (sentiment_score b)) (pmi_filtered rows)))"
    unfolding top_neg_def by (rule set_take_subset)
  then show ?thesis by (simp add: set_order_by)
qed

lemma top_pos_all:
  "length (pmi_filtered rows) \<le> 10 \<Longrightarrow> set (top_pos rows) = select_cols ` set (pmi_filtered rows)"
  by (simp add: top_pos_def length_order_by set_order_by)

lemma top_neg_all:
  "length (pmi_filtered rows) \<le> 10 \<Longrightarrow> set (top_neg rows) = select_cols ` set (pmi_filtered rows)"
  by (simp add: top_neg_def length_order_by set_order_by)

lemma tops_empty: "top_pos [] = []" "top_neg [] = []" "take 100 (word_freq_clean []) = []"
  by (simp_all add: top_pos_def top_neg_def pmi_filtered_def order_by_def word_freq_clean_def group_count_def)

lemma run_pmi_reddit_eq:
  assumes "pmi_df sw df = Inr rows"
  shows "run_pmi_reddit sw df =
     Inr \<lparr>reddit_pmi_positive = top_pos rows, reddit_pmi_negative = top_neg rows,
          reddit_word_freq = take 100 (word_freq_clean (clean_words_df sw df))\<rparr>"
  by (simp add: run_pmi_reddit_def assms)

lemma run_pmi_reddit_total: "\<exists>out. run_pmi_reddit sw df = Inr out"
proof -
  from pmi_table_total obtain rows where "pmi_df sw df = Inr rows"
    unfolding pmi_df_def by blast
  then show ?thesis by (simp add: run_pmi_reddit_def)
qed

lemma run_empty:
  assumes "clean_words_df sw df = []"
  shows "run_pmi_reddit sw df =
     Inr \<lparr>reddit_pmi_positive = [], reddit_pmi_negative = [], reddit_word_freq = []\<rparr>"
  by (simp add: run_pmi_reddit_def pmi_df_def assms pmi_table_empty tops_empty)

lemma output_row:
  assumes rows: "pmi_df sw df = Inr rows"
    and x: "(w, c, s) \<in> select_cols ` set (pmi_filtered rows)"
  shows "5 \<le> c \<and> c = lookup_0 (word_counts (clean_words_df sw df)) w \<and> w \<notin> set ambiguous_words"
proof -
  from x obtain r where r: "r \<in> set (pmi_filtered rows)" and e: "(w, c, s) = select_cols r"
    by blast
  from e have w: "w = word r" and c: "c = context_count r" by (simp_all add: select_cols_def)
  from r have m: "r \<in> set rows" and f: "5 \<le> context_count r" and a: "word r \<notin> set ambiguous_words"
    by (simp_all add: pmi_filtered_mem)
  from pmi_table_row [OF rows [unfolded pmi_df_def] m]
  have "r = with_columns (length (clean_words_df sw df)) (lex_total positive_words (clean_words_df sw df))
              (lex_total negative_words (clean_words_df sw df))
              (word r, count_list (clean_words_df sw df) (word r),
               lex_count positive_words (clean_words_df sw df) (word r),
               lex_count negative_words (clean_words_df sw df) (word r))"
    by blast
  then have "context_count r = count_list (clean_words_df sw df) (word r)"
    by (metis with_columns_counts(1))
  with w c f a show ?thesis by (simp add: lookup_word_counts)
qed

subsection \<open>The sample corpus evaluated\<close>

lemma sample_words: "clean_words_df [] sample_df = sample_ws"
  unfolding sample_df_def sample_ws_def by code_simp

lemma sample_remdups: "remdups sample_ws = [''good'', ''bad'']"
  by (simp add: sample_ws_def)

lemma sample_count:
  "count_list sample_ws ''good'' = 5" "count_list sample_ws ''bad'' = 4" "length sample_ws = 9"
  by (simp_all add: sample_ws_def)

lemma sample_lex_count:
  "lex_count positive_words sample_ws ''good'' = 5" "lex_count positive_words sample_ws ''bad'' = 0"
  "lex_count negative_words sample_ws ''good'' = 0" "lex_count negative_words sample_ws ''bad'' = 4"
  by (simp_all add: lex_count_def sample_count positive_words_def negative_words_def)

lemma sample_isin:
  "isin_counts positive_words sample_ws = [(''good'', 5)]"
  "isin_counts negative_words sample_ws = [(''bad'', 4)]"
  by (simp_all add: isin_counts_def group_count_def sample_ws_def positive_words_def negative_words_def)

lemma sample_lex_total:
  "lex_total positive_words sample_ws = 5" "lex_total negative_words sample_ws = 4"
  by (simp_all add: lex_total_def sample_isin or_1_def)

lemma sample_pmi:
  "pmi_df [] sample_df =
     Inr [with_columns 9 5 4 (''good'', 5, 5, 0), with_columns 9 5 4 (''bad'', 4, 0, 4)]"
  unfolding pmi_df_def sample_words pmi_table_eq
  by (simp add: sample_remdups sample_count sample_lex_count sample_lex_total)

lemma sample_tables:
  "word_counts sample_ws = [(''good'', 5), (''bad'', 4)]"
  "pos_counts sample_ws = [(''good'', 5)]"
  "neg_counts sample_ws = [(''bad'', 4)]"
  by (simp_all add: word_counts_def group_count_def sample_remdups sample_count pos_counts_def neg_counts_def sample_isin)

section \<open>Claims\<close>

text \<open>
  C1. For every token of the scored table, with \<open>c\<close>, \<open>p\<close>, \<open>n\<close> its entries in the three
  frequency tables (0 when absent), \<open>N\<close> the sum of all context counts, \<open>P\<close> and \<open>Q\<close> the
  sums of the positive and negative counts (1 when the sum is zero) and \<open>\<alpha> = 1\<close>, the
  computed \<open>sentiment_score\<close> is
  \<open>log2(((p+\<alpha>)/N) / ((c/N) * (P/N))) - log2(((n+\<alpha>)/N) / ((c/N) * (Q/N)))\<close>.
\<close>

theorem sentiment_score_formula:
  assumes "pmi_df sw df = Inr rows" and "r \<in> set rows"
  shows "sentiment_score r =
           Some (spec_sentiment_score
                  (lookup_0 (word_counts (clean_words_df sw df)) (word r))
                  (lookup_0 (pos_counts (clean_words_df sw df)) (word r))
                  (lookup_0 (neg_counts (clean_words_df sw df)) (word r))
                  (sum_counts (word_counts (clean_words_df sw df)))
                  (default_1 (sum_counts (pos_counts (clean_words_df sw df))))
                  (default_1 (sum_counts (neg_counts (clean_words_df sw df)))))"
proof -
  let ?ws = "clean_words_df sw df"
  let ?w = "word r"
  from pmi_table_row [OF assms [unfolded pmi_df_def]]
  have w: "?w \<in> set ?ws"
    and r: "r = with_columns (length ?ws) (lex_total positive_words ?ws) (lex_total negative_words ?ws)
               (?w, count_list ?ws ?w, lex_count positive_words ?ws ?w, lex_count negative_words ?ws ?w)"
    by blast+
  from w have c: "0 < count_list ?ws ?w" by (rule count_list_pos)
  from w have N: "0 < length ?ws" by (cases ?ws) auto
  have "sentiment_score r = Some (spec_sentiment_score (count_list ?ws ?w)
          (lex_count positive_words ?ws ?w) (lex_count negative_words ?ws ?w) (length ?ws)
          (lex_total positive_words ?ws) (lex_total negative_words ?ws))"
    by (subst r) (rule with_columns_score [OF c N lex_total_pos lex_total_pos])
  then show ?thesis
    by (simp add: lookup_word_counts pos_counts_def neg_counts_def lookup_isin_counts
        sum_word_counts lex_total_default)
qed

theorem sentiment_score_formula_witness:
  "pmi_df [] sample_df =
     Inr [with_columns 9 5 4 (''good'', 5, 5, 0), with_columns 9 5 4 (''bad'', 4, 0, 4)]
   \<and> with_columns 9 5 4 (''good'', 5, 5, 0)
       \<in> set [with_columns 9 5 4 (''good'', 5, 5, 0), with_columns 9 5 4 (''bad'', 4, 0, 4)]
   \<and> sentiment_score (with_columns 9 5 4 (''good'', 5, 5, 0)) = Some (spec_sentiment_score 5 5 0 9 5 4)"
proof -
  let ?r = "with_columns 9 5 4 (''good'', 5, 5, 0)"
  have m: "?r \<in> set [?r, with_columns 9 5 4 (''bad'', 4, 0, 4)]" by simp
  have w: "word ?r = ''good''" by (simp add: with_columns_def Let_def)
  from sentiment_score_formula [OF sample_pmi m]
  have "sentiment_score ?r = Some (spec_sentiment_score 5 5 0 9 5 4)"
    unfolding sample_words w sample_tables
    by (simp add: lookup_0_def sum_counts_def default_1_def)
  with sample_pmi m show ?thesis by blast
qed

text \<open>
  C2, as stated, fails: on the two-comment corpus the token stream is not the six tokens
  good, game, good, bad, game, bad and \<open>N\<close> is not 6, here with no stop word removed at
  all; and the word filters alone turn those six tokens into four.
\<close>

theorem c2_six_tokens_counterexample:
  "clean_words_df [] c2_corpus \<noteq> [''good'', ''game'', ''good'', ''bad'', ''game'', ''bad''] \<and>
   total_tokens (clean_words_df [] c2_corpus) \<noteq> 6 \<and>
   word_filters (explode (map (clean_tokens_col []) c2_corpus)) \<noteq>
     [''good'', ''game'', ''good'', ''bad'', ''game'', ''bad'']"
proof -
  have "df_clean c2_corpus = []" by (simp add: df_clean_def c2_corpus_def)
  then have e: "clean_words_df [] c2_corpus = []" by (rule clean_words_df_empty)
  have "word_filters (explode (map (clean_tokens_col []) c2_corpus)) =
      [''good'', ''good'', ''bad'', ''bad'']"
    unfolding c2_corpus_def by code_simp
  then show ?thesis by (simp add: e total_tokens_def)
qed

text \<open>
  C2, amended. Both comments of the corpus have at most 20 characters, so the cleaning
  filter drops both rows: whatever the stop word list, no token is emitted, \<open>N\<close> is 0, and
  the run ends without error with empty tables. The tokeniser alone splits the two texts
  into good, game, good, bad, game, bad; the word filters keep good, good, bad, bad,
  since "game" is a custom noise word; and scoring those four tokens gives two rows,
  both below the floor of 5, so both ranked tables are empty.
\<close>

theorem c2_corpus_gives_empty_tables:
  "df_clean c2_corpus = [] \<and>
   clean_words_df sw c2_corpus = [] \<and>
   total_tokens (clean_words_df sw c2_corpus) = 0 \<and>
   run_pmi_reddit sw c2_corpus =
     Inr \<lparr>reddit_pmi_positive = [], reddit_pmi_negative = [], reddit_word_freq = []\<rparr> \<and>
   explode (map tokens_col c2_corpus) = [''good'', ''game'', ''good'', ''bad'', ''game'', ''bad''] \<and>
   ''game'' \<in> set custom_noise_words \<and>
   word_filters [''good'', ''game'', ''good'', ''bad'', ''game'', ''bad''] =
     [''good'', ''good'', ''bad'', ''bad''] \<and>
   (\<exists>rows. pmi_table positive_words negative_words [''good'', ''good'', ''bad'', ''bad''] = Inr rows \<and>
      map word rows = [''good'', ''bad''] \<and> map context_count rows = [2, 2] \<and>
      pmi_filtered rows = [] \<and> top_pos rows = [] \<and> top_neg rows = [])"
proof -
  have d: "df_clean c2_corpus = []" by (simp add: df_clean_def c2_corpus_def)
  then have e: "clean_words_df sw c2_corpus = []" by (rule clean_words_df_empty)
  have t: "explode (map tokens_col c2_corpus) = [''good'', ''game'', ''good'', ''bad'', ''game'', ''bad'']"
    unfolding c2_corpus_def by code_simp
  have g: "''game'' \<in> set custom_noise_words" by (simp add: custom_noise_words_def)
  have f: "word_filters [''good'', ''game'', ''good'', ''bad'', ''game'', ''bad''] =
     [''good'', ''good'', ''bad'', ''bad'']"
    by code_simp
  let ?ws = "[''good'', ''good'', ''bad'', ''bad'']"
  let ?rows = "map (\<lambda>w. with_columns (length ?ws) (lex_total positive_words ?ws)
      (lex_total negative_words ?ws)
      (w, count_list ?ws w, lex_count positive_words ?ws w, lex_count negative_words ?ws w)) (remdups ?ws)"
  have p: "pmi_table positive_words negative_words ?ws = Inr ?rows" by (rule pmi_table_eq)
  have w: "map word ?rows = [''good'', ''bad'']" by (simp add: with_columns_word)
  have c: "map context_count ?rows = [2, 2]" by (simp add: with_columns_counts)
  have "filter (\<lambda>r. 5 \<le> context_count r) ?rows = []"
    by (simp add: with_columns_counts)
  then have z: "pmi_filtered ?rows = []" unfolding pmi_filtered_def by simp
  have tp: "top_pos ?rows = []" "top_neg ?rows = []"
    unfolding top_pos_def top_neg_def z by (simp_all add: order_by_def)
  from p w c z tp have ex: "\<exists>rows. pmi_table positive_words negative_words ?ws = Inr rows \<and>
      map word rows = [''good'', ''bad''] \<and> map context_count rows = [2, 2] \<and>
      pmi_filtered rows = [] \<and> top_pos rows = [] \<and> top_neg rows = []"
    by (intro exI [of _ ?rows] conjI)
  from d e t g f ex run_empty [OF e] show ?thesis by (simp add: total_tokens_def)
qed

text \<open>
  C3. For every corpus, scoring with the positive and the negative seed lexicon swapped
  gives the same tokens, and for every token the negation of the score obtained with the
  lexicons in place; the scores are taken from the scored table, before any ranking, and
  none of them is null.
\<close>

theorem swapped_lexicons_negate_score:
  "\<exists>rows rows'. pmi_df sw df = Inr rows \<and>
     pmi_table negative_words positive_words (clean_words_df sw df) = Inr rows' \<and>
     map word rows' = map word rows \<and>
     map sentiment_score rows' = map (\<lambda>r. map_option uminus (sentiment_score r)) rows \<and>
     None \<notin> set (map sentiment_score rows)"
proof -
  from pmi_table_swap [of positive_words negative_words "clean_words_df sw df"]
  obtain rows rows' where
    a: "pmi_table positive_words negative_words (clean_words_df sw df) = Inr rows" and
    b: "pmi_table negative_words positive_words (clean_words_df sw df) = Inr rows'" and
    c: "map word rows' = map word rows" and
    d: "map sentiment_score rows' = map (\<lambda>r. map_option uminus (sentiment_score r)) rows"
    by blast
  from pmi_table_score_not_null [OF a] have "None \<notin> set (map sentiment_score rows)" .
  with a b c d show ?thesis unfolding pmi_df_def by blast
qed

text \<open>
  C4. Every row of the joined table carries the entries of the three frequency tables
  for its token, and its \<open>context_count\<close> is at least the larger of its \<open>pos_count\<close> and
  \<open>neg_count\<close>; the same holds of the tables' entries for any token; and every token of
  \<open>pos_counts\<close> or \<open>neg_counts\<close> is a token of \<open>word_counts\<close>, with a count at least as
  large.
\<close>

theorem context_count_dominates:
  assumes "pmi_df sw df = Inr rows"
  shows "(\<forall>r \<in> set rows.
            context_count r = lookup_0 (word_counts (clean_words_df sw df)) (word r) \<and>
            pos_count r = lookup_0 (pos_counts (clean_words_df sw df)) (word r) \<and>
            neg_count r = lookup_0 (neg_counts (clean_words_df sw df)) (word r) \<and>
            max (pos_count r) (neg_count r) \<le> context_count r) \<and>
         (\<forall>w. max (lookup_0 (pos_counts (clean_words_df sw df)) w)
                  (lookup_0 (neg_counts (clean_words_df sw df)) w)
               \<le> lookup_0 (word_counts (clean_words_df sw df)) w) \<and>
         (\<forall>(w, k) \<in> set (pos_counts (clean_words_df sw df)) \<union> set (neg_counts (clean_words_df sw df)).
            \<exists>c. (w, c) \<in> set (word_counts (clean_words_df sw df)) \<and> k \<le> c)"
proof (intro conjI ballI allI)
  fix r assume r: "r \<in> set rows"
  let ?ws = "clean_words_df sw df"
  from pmi_table_row [OF assms [unfolded pmi_df_def] r]
  have e: "r = with_columns (length ?ws) (lex_total positive_words ?ws) (lex_total negative_words ?ws)
               (word r, count_list ?ws (word r), lex_count positive_words ?ws (word r),
                lex_count negative_words ?ws (word r))"
    by blast
  have c: "context_count r = count_list ?ws (word r)"
    by (subst e) (simp only: with_columns_counts)
  have p: "pos_count r = lex_count positive_words ?ws (word r)"
    by (subst e) (simp only: with_columns_counts)
  have n: "neg_count r = lex_count negative_words ?ws (word r)"
    by (subst e) (simp only: with_columns_counts)
  show "context_count r = lookup_0 (word_counts ?ws) (word r)"
    by (simp add: c lookup_word_counts)
  show "pos_count r = lookup_0 (pos_counts ?ws) (word r)"
    by (simp add: p pos_counts_def lookup_isin_counts)
  show "neg_count r = lookup_0 (neg_counts ?ws) (word r)"
    by (simp add: n neg_counts_def lookup_isin_counts)
  show "max (pos_count r) (neg_count r) \<le> context_count r"
    by (simp add: c p n lex_count_le)
next
  fix w
  show "max (lookup_0 (pos_counts (clean_words_df sw df)) w)
            (lookup_0 (neg_counts (clean_words_df sw df)) w)
        \<le> lookup_0 (word_counts (clean_words_df sw df)) w"
    by (simp add: pos_counts_def neg_counts_def lookup_isin_counts lookup_word_counts lex_count_le)
next
  fix x
  assume x: "x \<in> set (pos_counts (clean_words_df sw df)) \<union> set (neg_counts (clean_words_df sw df))"
  obtain w k where wk: "x = (w, k)" by (cases x)
  from x wk have "(w, k) \<in> set (isin_counts positive_words (clean_words_df sw df))
      \<or> (w, k) \<in> set (isin_counts negative_words (clean_words_df sw df))"
    by (simp add: pos_counts_def neg_counts_def)
  then have "\<exists>c. (w, c) \<in> set (word_counts (clean_words_df sw df)) \<and> k \<le> c"
    using isin_counts_mem by blast
  with wk show "case x of (w, k) \<Rightarrow> \<exists>c. (w, c) \<in> set (word_counts (clean_words_df sw df)) \<and> k \<le> c"
    by simp
qed

theorem context_count_dominates_witness:
  "pmi_df [] sample_df =
     Inr [with_columns 9 5 4 (''good'', 5, 5, 0), with_columns 9 5 4 (''bad'', 4, 0, 4)]
   \<and> with_columns 9 5 4 (''bad'', 4, 0, 4)
       \<in> set [with_columns 9 5 4 (''good'', 5, 5, 0), with_columns 9 5 4 (''bad'', 4, 0, 4)]
   \<and> context_count (with_columns 9 5 4 (''bad'', 4, 0, 4)) = 4
   \<and> max (pos_count (with_columns 9 5 4 (''bad'', 4, 0, 4)))
          (neg_count (with_columns 9 5 4 (''bad'', 4, 0, 4)))
       \<le> context_count (with_columns 9 5 4 (''bad'', 4, 0, 4))
   \<and> (''good'', 5) \<in> set (pos_counts (clean_words_df [] sample_df))
                        \<union> set (neg_counts (clean_words_df [] sample_df))
   \<and> (\<exists>c. (''good'', c) \<in> set (word_counts (clean_words_df [] sample_df)) \<and> 5 \<le> c)"
proof -
  let ?r = "with_columns 9 5 4 (''bad'', 4, 0, 4)"
  let ?rows = "[with_columns 9 5 4 (''good'', 5, 5, 0), ?r]"
  note t = context_count_dominates [OF sample_pmi]
  have m: "?r \<in> set ?rows" by simp
  have g: "(''good'', 5) \<in> set (pos_counts (clean_words_df [] sample_df))
                        \<union> set (neg_counts (clean_words_df [] sample_df))"
    by (simp add: sample_words sample_tables)
  from t have "\<forall>r \<in> set ?rows. max (pos_count r) (neg_count r) \<le> context_count r" by blast
  with m have a: "max (pos_count ?r) (neg_count ?r) \<le> context_count ?r" by blast
  from t have "\<forall>(w, k) \<in> set (pos_counts (clean_words_df [] sample_df))
                        \<union> set (neg_counts (clean_words_df [] sample_df)).
            \<exists>c. (w, c) \<in> set (word_counts (clean_words_df [] sample_df)) \<and> k \<le> c" by blast
  with g have b: "\<exists>c. (''good'', c) \<in> set (word_counts (clean_words_df [] sample_df)) \<and> 5 \<le> c"
    by blast
  have c: "context_count ?r = 4" by (simp add: with_columns_counts)
  from sample_pmi m a b c g show ?thesis by blast
qed

text \<open>
  C5. No division of the scoring step has a zero divisor. For every row of the scored
  table: its \<open>context_count\<close> is positive, the token total \<open>N\<close> is positive, the two
  lexicon totals are collected without error and are at least 1 (each is the sum of its
  table, or 1 when that sum is zero), the five quotients by \<open>N\<close> are computed, the two
  products \<open>p_w * p_pos\<close> and \<open>p_w * p_neg\<close> that divide inside the logarithms are not
  zero, and no computed column is null.
\<close>

theorem no_division_by_zero:
  assumes "pmi_df sw df = Inr rows" and "r \<in> set rows"
  shows "0 < context_count r \<and> 0 < total_tokens (clean_words_df sw df) \<and>
         (\<exists>P Q. total_of (pos_counts (clean_words_df sw df)) = Inr P \<and>
                total_of (neg_counts (clean_words_df sw df)) = Inr Q \<and>
                P = default_1 (sum_counts (pos_counts (clean_words_df sw df))) \<and>
                Q = default_1 (sum_counts (neg_counts (clean_words_df sw df))) \<and>
                1 \<le> P \<and> 1 \<le> Q \<and>
                p_w r = Some (real (context_count r) / real (total_tokens (clean_words_df sw df))) \<and>
                p_pos r = Some (real P / real (total_tokens (clean_words_df sw df))) \<and>
                p_neg r = Some (real Q / real (total_tokens (clean_words_df sw df))) \<and>
                p_w_pos_s r = Some (real (pos_count_s r) / real (total_tokens (clean_words_df sw df))) \<and>
                p_w_neg_s r = Some (real (neg_count_s r) / real (total_tokens (clean_words_df sw df))) \<and>
                col_mul (p_w r) (p_pos r) \<noteq> None \<and> col_mul (p_w r) (p_pos r) \<noteq> Some 0 \<and>
                col_mul (p_w r) (p_neg r) \<noteq> None \<and> col_mul (p_w r) (p_neg r) \<noteq> Some 0) \<and>
         pmi_positive r \<noteq> None \<and> pmi_negative r \<noteq> None \<and> sentiment_score r \<noteq> None"
proof -
  let ?ws = "clean_words_df sw df"
  let ?N = "length ?ws"
  let ?P = "lex_total positive_words ?ws"
  let ?Q = "lex_total negative_words ?ws"
  let ?c = "count_list ?ws (word r)"
  let ?p = "lex_count positive_words ?ws (word r)"
  let ?n = "lex_count negative_words ?ws (word r)"
  from pmi_table_row [OF assms [unfolded pmi_df_def]]
  have w: "word r \<in> set ?ws" and e: "r = with_columns ?N ?P ?Q (word r, ?c, ?p, ?n)"
    by blast+
  from w have c: "0 < ?c" by (rule count_list_pos)
  from w have N: "0 < ?N" by (cases ?ws) auto
  have P: "0 < ?P" and Q: "0 < ?Q" by (rule lex_total_pos)+
  have cc: "context_count r = ?c" by (subst e) (simp only: with_columns_counts)
  have ps: "pos_count_s r = ?p + alpha" by (subst e) (simp only: with_columns_counts)
  have ns: "neg_count_s r = ?n + alpha" by (subst e) (simp only: with_columns_counts)
  have pw: "p_w r = Some (real ?c / real ?N)"
    by (subst e) (simp only: with_columns_probs [OF N])
  have pp: "p_pos r = Some (real ?P / real ?N)"
    by (subst e) (simp only: with_columns_probs [OF N])
  have pn: "p_neg r = Some (real ?Q / real ?N)"
    by (subst e) (simp only: with_columns_probs [OF N])
  have pwp: "p_w_pos_s r = Some (real (?p + alpha) / real ?N)"
    by (subst e) (simp only: with_columns_probs [OF N])
  have pwn: "p_w_neg_s r = Some (real (?n + alpha) / real ?N)"
    by (subst e) (simp only: with_columns_probs [OF N])
  have mp: "col_mul (p_w r) (p_pos r) \<noteq> None \<and> col_mul (p_w r) (p_pos r) \<noteq> Some 0"
    using c N P by (simp add: pw pp col_mul_def)
  have mn: "col_mul (p_w r) (p_neg r) \<noteq> None \<and> col_mul (p_w r) (p_neg r) \<noteq> Some 0"
    using c N Q by (simp add: pw pn col_mul_def)
  have lp: "pmi_positive r \<noteq> None"
    by (subst e) (simp add: with_columns_pmi [OF c N P Q])
  have ln: "pmi_negative r \<noteq> None"
    by (subst e) (simp add: with_columns_pmi [OF c N P Q])
  have s: "sentiment_score r \<noteq> None"
    by (subst e) (simp add: with_columns_score [OF c N P Q])
  have tp: "total_of (pos_counts ?ws) = Inr ?P" and tn: "total_of (neg_counts ?ws) = Inr ?Q"
    by (simp_all add: pos_counts_def neg_counts_def total_of_isin)
  have dp: "?P = default_1 (sum_counts (pos_counts ?ws))"
    and dn: "?Q = default_1 (sum_counts (neg_counts ?ws))"
    by (simp_all add: pos_counts_def neg_counts_def lex_total_default)
  have P1: "1 \<le> ?P" and Q1: "1 \<le> ?Q" using P Q by simp_all
  have ex: "\<exists>P Q. total_of (pos_counts ?ws) = Inr P \<and> total_of (neg_counts ?ws) = Inr Q \<and>
                P = default_1 (sum_counts (pos_counts ?ws)) \<and>
                Q = default_1 (sum_counts (neg_counts ?ws)) \<and>
                1 \<le> P \<and> 1 \<le> Q \<and>
                p_w r = Some (real (context_count r) / real (total_tokens ?ws)) \<and>
                p_pos r = Some (real P / real (total_tokens ?ws)) \<and>
                p_neg r = Some (real Q / real (total_tokens ?ws)) \<and>
                p_w_pos_s r = Some (real (pos_count_s r) / real (total_tokens ?ws)) \<and>
                p_w_neg_s r = Some (real (neg_count_s r) / real (total_tokens ?ws)) \<and>
                col_mul (p_w r) (p_pos r) \<noteq> None \<and> col_mul (p_w r) (p_pos r) \<noteq> Some 0 \<and>
                col_mul (p_w r) (p_neg r) \<noteq> None \<and> col_mul (p_w r) (p_neg r) \<noteq> Some 0"
    apply (rule exI [of _ ?P], rule exI [of _ ?Q])
    unfolding total_tokens_def cc ps ns
    using tp tn dp dn P1 Q1 pw pp pn pwp pwn mp mn by (intro conjI) blast+
  from c N have "0 < context_count r" "0 < total_tokens ?ws"
    by (simp_all add: cc total_tokens_def)
  with ex lp ln s show ?thesis by blast
qed

theorem no_division_by_zero_witness:
  "pmi_df [] sample_df =
     Inr [with_columns 9 5 4 (''good'', 5, 5, 0), with_columns 9 5 4 (''bad'', 4, 0, 4)]
   \<and> with_columns 9 5 4 (''good'', 5, 5, 0)
       \<in> set [with_columns 9 5 4 (''good'', 5, 5, 0), with_columns 9 5 4 (''bad'', 4, 0, 4)]
   \<and> 0 < context_count (with_columns 9 5 4 (''good'', 5, 5, 0))
   \<and> 0 < total_tokens (clean_words_df [] sample_df)
   \<and> pmi_positive (with_columns 9 5 4 (''good'', 5, 5, 0)) \<noteq> None
   \<and> pmi_negative (with_columns 9 5 4 (''good'', 5, 5, 0)) \<noteq> None
   \<and> sentiment_score (with_columns 9 5 4 (''good'', 5, 5, 0)) \<noteq> None"
proof -
  let ?r = "with_columns 9 5 4 (''good'', 5, 5, 0)"
  have m: "?r \<in> set [?r, with_columns 9 5 4 (''bad'', 4, 0, 4)]" by simp
  from no_division_by_zero [OF sample_pmi m] sample_pmi m show ?thesis by blast
qed

text \<open>
  C6. Every row of the two saved top-10 tables has \<open>context_count\<close> at least 5, and that
  column is the token's count in the corpus; so a token that occurs 4 times is in
  neither table. The floor is inclusive: a token that occurs exactly 5 times and is not
  in the ambiguous word list has a row in the filtered table that is ranked, and is in
  both saved tables when that table has at most 10 rows.
\<close>

theorem frequency_floor_is_five:
  assumes "pmi_df sw df = Inr rows" and "run_pmi_reddit sw df = Inr out"
  shows "(\<forall>(w, c, s) \<in> set (reddit_pmi_positive out) \<union> set (reddit_pmi_negative out).
            5 \<le> c \<and> c = lookup_0 (word_counts (clean_words_df sw df)) w) \<and>
         (\<forall>w. lookup_0 (word_counts (clean_words_df sw df)) w = 4 \<longrightarrow>
            w \<notin> fst ` (set (reddit_pmi_positive out) \<union> set (reddit_pmi_negative out))) \<and>
         (\<forall>w. lookup_0 (word_counts (clean_words_df sw df)) w = 5 \<and> w \<notin> set ambiguous_words \<longrightarrow>
            w \<in> word ` set (pmi_filtered rows) \<and>
            (length (pmi_filtered rows) \<le> 10 \<longrightarrow>
               w \<in> fst ` set (reddit_pmi_positive out) \<and>
               w \<in> fst ` set (reddit_pmi_negative out)))"
proof -
  let ?ws = "clean_words_df sw df"
  note rows = assms(1)
  from assms(2) run_pmi_reddit_eq [OF rows]
  have out: "reddit_pmi_positive out = top_pos rows" "reddit_pmi_negative out = top_neg rows"
    by auto
  have sub: "set (reddit_pmi_positive out) \<union> set (reddit_pmi_negative out)
      \<subseteq> select_cols ` set (pmi_filtered rows)"
    unfolding out using top_pos_subset [of rows] top_neg_subset [of rows] by blast
  have a: "\<forall>(w, c, s) \<in> set (reddit_pmi_positive out) \<union> set (reddit_pmi_negative out).
            5 \<le> c \<and> c = lookup_0 (word_counts ?ws) w"
  proof (intro ballI)
    fix x assume x: "x \<in> set (reddit_pmi_positive out) \<union> set (reddit_pmi_negative out)"
    obtain w c s where e: "x = (w, c, s)" by (cases x)
    from x e sub have "(w, c, s) \<in> select_cols ` set (pmi_filtered rows)" by blast
    from output_row [OF rows this] e
    show "case x of (w, c, s) \<Rightarrow> 5 \<le> c \<and> c = lookup_0 (word_counts ?ws) w" by simp
  qed
  have b: "\<forall>w. lookup_0 (word_counts ?ws) w = 4 \<longrightarrow>
            w \<notin> fst ` (set (reddit_pmi_positive out) \<union> set (reddit_pmi_negative out))"
  proof (intro allI impI notI)
    fix w assume four: "lookup_0 (word_counts ?ws) w = 4"
      and "w \<in> fst ` (set (reddit_pmi_positive out) \<union> set (reddit_pmi_negative out))"
    then obtain c s where "(w, c, s) \<in> set (reddit_pmi_positive out) \<union> set (reddit_pmi_negative out)"
      by force
    with sub have "(w, c, s) \<in> select_cols ` set (pmi_filtered rows)" by blast
    from output_row [OF rows this] four show False by auto
  qed
  have c: "\<forall>w. lookup_0 (word_counts ?ws) w = 5 \<and> w \<notin> set ambiguous_words \<longrightarrow>
            w \<in> word ` set (pmi_filtered rows) \<and>
            (length (pmi_filtered rows) \<le> 10 \<longrightarrow>
               w \<in> fst ` set (reddit_pmi_positive out) \<and>
               w \<in> fst ` set (reddit_pmi_negative out))"
  proof (intro allI impI)
    fix w assume h: "lookup_0 (word_counts ?ws) w = 5 \<and> w \<notin> set ambiguous_words"
    then have five: "count_list ?ws w = 5" and amb: "w \<notin> set ambiguous_words"
      by (simp_all add: lookup_word_counts)
    from five have "w \<in> set ?ws" using count_list_0_iff [of ?ws w] by auto
    from pmi_table_has_row [OF rows [unfolded pmi_df_def] this] five
    obtain r where r: "r \<in> set rows" "word r = w" "context_count r = 5" by auto
    with amb have f: "r \<in> set (pmi_filtered rows)" by (simp add: pmi_filtered_mem)
    with r(2) have w: "w \<in> word ` set (pmi_filtered rows)" by blast
    have "fst (select_cols r) = w" using r(2) by (simp add: select_cols_def)
    with f have s: "w \<in> fst ` select_cols ` set (pmi_filtered rows)" by blast
    have "length (pmi_filtered rows) \<le> 10 \<longrightarrow>
            w \<in> fst ` set (reddit_pmi_positive out) \<and> w \<in> fst ` set (reddit_pmi_negative out)"
      using s by (simp add: out top_pos_all top_neg_all)
    with w show "w \<in> word ` set (pmi_filtered rows) \<and>
            (length (pmi_filtered rows) \<le> 10 \<longrightarrow>
               w \<in> fst ` set (reddit_pmi_positive out) \<and>
               w \<in> fst ` set (reddit_pmi_negative out))" by blast
  qed
  from a b c show ?thesis by blast
qed

theorem frequency_floor_is_five_witness:
  "pmi_df [] sample_df =
     Inr [with_columns 9 5 4 (''good'', 5, 5, 0), with_columns 9 5 4 (''bad'', 4, 0, 4)]
   \<and> run_pmi_reddit [] sample_df =
     Inr \<lparr>reddit_pmi_positive = top_pos [with_columns 9 5 4 (''good'', 5, 5, 0), with_columns 9 5 4 (''bad'', 4, 0, 4)],
          reddit_pmi_negative = top_neg [with_columns 9 5 4 (''good'', 5, 5, 0), with_columns 9 5 4 (''bad'', 4, 0, 4)],
          reddit_word_freq = take 100 (word_freq_clean (clean_words_df [] sample_df))\<rparr>
   \<and> lookup_0 (word_counts (clean_words_df [] sample_df)) ''bad'' = 4
   \<and> ''bad'' \<notin> fst ` (set (top_pos [with_columns 9 5 4 (''good'', 5, 5, 0), with_columns 9 5 4 (''bad'', 4, 0, 4)])
                       \<union> set (top_neg [with_columns 9 5 4 (''good'', 5, 5, 0), with_columns 9 5 4 (''bad'', 4, 0, 4)]))
   \<and> lookup_0 (word_counts (clean_words_df [] sample_df)) ''good'' = 5
   \<and> ''good'' \<notin> set ambiguous_words
   \<and> length (pmi_filtered [with_columns 9 5 4 (''good'', 5, 5, 0), with_columns 9 5 4 (''bad'', 4, 0, 4)]) \<le> 10
   \<and> ''good'' \<in> fst ` set (top_pos [with_columns 9 5 4 (''good'', 5, 5, 0), with_columns 9 5 4 (''bad'', 4, 0, 4)])
   \<and> ''good'' \<in> fst ` set (top_neg [with_columns 9 5 4 (''good'', 5, 5, 0), with_columns 9 5 4 (''bad'', 4, 0, 4)])
   \<and> (''good'', 5, sentiment_score (with_columns 9 5 4 (''good'', 5, 5, 0)))
       \<in> set (top_pos [with_columns 9 5 4 (''good'', 5, 5, 0), with_columns 9 5 4 (''bad'', 4, 0, 4)])
          \<union> set (top_neg [with_columns 9 5 4 (''good'', 5, 5, 0), with_columns 9 5 4 (''bad'', 4, 0, 4)])
   \<and> (5::nat) \<le> 5"
proof -
  let ?g = "with_columns 9 5 4 (''good'', 5, 5, 0)"
  let ?rows = "[?g, with_columns 9 5 4 (''bad'', 4, 0, 4)]"
  let ?out = "\<lparr>reddit_pmi_positive = top_pos ?rows, reddit_pmi_negative = top_neg ?rows,
          reddit_word_freq = take 100 (word_freq_clean (clean_words_df [] sample_df))\<rparr>"
  have run: "run_pmi_reddit [] sample_df = Inr ?out"
    by (rule run_pmi_reddit_eq [OF sample_pmi])
  note t = frequency_floor_is_five [OF sample_pmi run]
  have four: "lookup_0 (word_counts (clean_words_df [] sample_df)) ''bad'' = 4"
    and five: "lookup_0 (word_counts (clean_words_df [] sample_df)) ''good'' = 5"
    by (simp_all add: sample_words lookup_word_counts sample_count)
  have amb: "''good'' \<notin> set ambiguous_words" by (simp add: ambiguous_words_def)
  have filt: "pmi_filtered ?rows = [?g]"
    by (simp add: pmi_filtered_def with_columns_counts with_columns_word amb)
  have len: "length (pmi_filtered ?rows) \<le> 10" by (simp add: filt)
  from t [THEN conjunct2, THEN conjunct1, rule_format, OF four]
  have a: "''bad'' \<notin> fst ` (set (top_pos ?rows) \<union> set (top_neg ?rows))"
    by simp
  from t [THEN conjunct2, THEN conjunct2, rule_format, OF conjI [OF five amb]]
  have "length (pmi_filtered ?rows) \<le> 10 \<longrightarrow>
       ''good'' \<in> fst ` set (top_pos ?rows) \<and> ''good'' \<in> fst ` set (top_neg ?rows)"
    by simp
  with len have b: "''good'' \<in> fst ` set (top_pos ?rows)" "''good'' \<in> fst ` set (top_neg ?rows)"
    by simp_all
  have m: "(''good'', 5, sentiment_score ?g) \<in> set (top_pos ?rows) \<union> set (top_neg ?rows)"
    by (simp add: top_pos_all [OF len] filt select_cols_def with_columns_word with_columns_counts)
  from m have m': "(''good'', 5, sentiment_score ?g)
      \<in> set (reddit_pmi_positive ?out) \<union> set (reddit_pmi_negative ?out)"
    by simp
  from t [THEN conjunct1, rule_format, OF m'] have f: "(5::nat) \<le> 5" by simp
  from sample_pmi run four a five amb len b m f show ?thesis by (intro conjI)
qed

text \<open>
  C7. On a corpus with no row, or none that survives cleaning, the run ends without error
  and saves three empty tables; no token is counted, the three frequency tables are
  empty and both lexicon totals are 1.
\<close>

theorem empty_corpus_gives_empty_tables:
  assumes "df_clean df = []"
  shows "run_pmi_reddit sw df =
           Inr \<lparr>reddit_pmi_positive = [], reddit_pmi_negative = [], reddit_word_freq = []\<rparr> \<and>
         pmi_df sw df = Inr [] \<and>
         total_tokens (clean_words_df sw df) = 0 \<and>
         word_counts (clean_words_df sw df) = [] \<and>
         pos_counts (clean_words_df sw df) = [] \<and>
         neg_counts (clean_words_df sw df) = [] \<and>
         total_of (pos_counts (clean_words_df sw df)) = Inr 1 \<and>
         total_of (neg_counts (clean_words_df sw df)) = Inr 1"
proof -
  from assms have e: "clean_words_df sw df = []" by (rule clean_words_df_empty)
  have t: "word_counts [] = []" "pos_counts [] = []" "neg_counts [] = []"
    by (simp_all add: word_counts_def pos_counts_def neg_counts_def isin_counts_def group_count_def)
  show ?thesis
    unfolding e t by (simp add: run_empty [OF e] pmi_df_def e pmi_table_empty total_tokens_def total_of_empty)
qed

theorem empty_corpus_gives_empty_tables_witness:
  "df_clean [] = [] \<and>
   run_pmi_reddit [] [] =
     Inr \<lparr>reddit_pmi_positive = [], reddit_pmi_negative = [], reddit_word_freq = []\<rparr> \<and>
   df_clean [None, Some ''too short''] = [] \<and>
   run_pmi_reddit [] [None, Some ''too short''] =
     Inr \<lparr>reddit_pmi_positive = [], reddit_pmi_negative = [], reddit_word_freq = []\<rparr> \<and>
   total_of (pos_counts (clean_words_df [] [None, Some ''too short''])) = Inr 1 \<and>
   total_of (neg_counts (clean_words_df [] [None, Some ''too short''])) = Inr 1"
proof -
  have a: "df_clean [] = []" by (simp add: df_clean_def)
  have b: "df_clean [None, Some ''too short''] = []" by (simp add: df_clean_def)
  from empty_corpus_gives_empty_tables [OF a, of "[]"] empty_corpus_gives_empty_tables [OF b, of "[]"] a b
  show ?thesis by (intro conjI) blast+
qed

text \<open>
  C8. For every row of the scored table the three probabilities are computed. When the
  row's \<open>neg_count\<close> is 0, \<open>pmi_negative\<close> is \<open>log2((\<alpha>/N) / (p_w * p_neg))\<close>, the logarithm
  of a positive number and so a number, not null; and the same for \<open>pos_count\<close> 0 and
  \<open>pmi_positive\<close>.
\<close>

theorem smoothed_pmi_is_a_number:
  assumes "pmi_df sw df = Inr rows" and "r \<in> set rows"
  shows "0 < context_count r \<and>
         (\<exists>pw ppos pneg.
            p_w r = Some pw \<and> p_pos r = Some ppos \<and> p_neg r = Some pneg \<and>
            (neg_count r = 0 \<longrightarrow>
               0 < (real alpha / real (total_tokens (clean_words_df sw df))) / (pw * pneg) \<and>
               pmi_negative r =
                 Some (log 2 ((real alpha / real (total_tokens (clean_words_df sw df))) / (pw * pneg)))) \<and>
            (pos_count r = 0 \<longrightarrow>
               0 < (real alpha / real (total_tokens (clean_words_df sw df))) / (pw * ppos) \<and>
               pmi_positive r =
                 Some (log 2 ((real alpha / real (total_tokens (clean_words_df sw df))) / (pw * ppos)))))"
proof -
  let ?ws = "clean_words_df sw df"
  let ?N = "length ?ws"
  let ?P = "lex_total positive_words ?ws"
  let ?Q = "lex_total negative_words ?ws"
  let ?c = "count_list ?ws (word r)"
  let ?p = "lex_count positive_words ?ws (word r)"
  let ?n = "lex_count negative_words ?ws (word r)"
  from pmi_table_row [OF assms [unfolded pmi_df_def]]
  have w: "word r \<in> set ?ws" and e: "r = with_columns ?N ?P ?Q (word r, ?c, ?p, ?n)"
    by blast+
  from w have c: "0 < ?c" by (rule count_list_pos)
  from w have N: "0 < ?N" by (cases ?ws) auto
  have P: "0 < ?P" and Q: "0 < ?Q" by (rule lex_total_pos)+
  have cc: "context_count r = ?c" by (subst e) (simp only: with_columns_counts)
  have pc: "pos_count r = ?p" by (subst e) (simp only: with_columns_counts)
  have nc: "neg_count r = ?n" by (subst e) (simp only: with_columns_counts)
  have pw: "p_w r = Some (real ?c / real ?N)"
    by (subst e) (simp only: with_columns_probs [OF N])
  have pp: "p_pos r = Some (real ?P / real ?N)"
    by (subst e) (simp only: with_columns_probs [OF N])
  have pn: "p_neg r = Some (real ?Q / real ?N)"
    by (subst e) (simp only: with_columns_probs [OF N])
  have lp: "pmi_positive r = Some (spec_pmi ?p ?c ?N ?P)"
    by (subst e) (simp only: with_columns_pmi [OF c N P Q])
  have ln: "pmi_negative r = Some (spec_pmi ?n ?c ?N ?Q)"
    by (subst e) (simp only: with_columns_pmi [OF c N P Q])
  have posn: "0 < (real alpha / real ?N) / ((real ?c / real ?N) * (real ?Q / real ?N))"
    using c N Q by (simp add: alpha_def)
  have posp: "0 < (real alpha / real ?N) / ((real ?c / real ?N) * (real ?P / real ?N))"
    using c N P by (simp add: alpha_def)
  have a: "neg_count r = 0 \<longrightarrow>
      0 < (real alpha / real (total_tokens ?ws)) / ((real ?c / real ?N) * (real ?Q / real ?N)) \<and>
      pmi_negative r = Some (log 2 ((real alpha / real (total_tokens ?ws)) /
         ((real ?c / real ?N) * (real ?Q / real ?N))))"
    using posn by (simp add: nc ln spec_pmi_def total_tokens_def alpha_def)
  have b: "pos_count r = 0 \<longrightarrow>
      0 < (real alpha / real (total_tokens ?ws)) / ((real ?c / real ?N) * (real ?P / real ?N)) \<and>
      pmi_positive r = Some (log 2 ((real alpha / real (total_tokens ?ws)) /
         ((real ?c / real ?N) * (real ?P / real ?N))))"
    using posp by (simp add: pc lp spec_pmi_def total_tokens_def alpha_def)
  have ex: "\<exists>pw ppos pneg.
            p_w r = Some pw \<and> p_pos r = Some ppos \<and> p_neg r = Some pneg \<and>
            (neg_count r = 0 \<longrightarrow>
               0 < (real alpha / real (total_tokens ?ws)) / (pw * pneg) \<and>
               pmi_negative r = Some (log 2 ((real alpha / real (total_tokens ?ws)) / (pw * pneg)))) \<and>
            (pos_count r = 0 \<longrightarrow>
               0 < (real alpha / real (total_tokens ?ws)) / (pw * ppos) \<and>
               pmi_positive r = Some (log 2 ((real alpha / real (total_tokens ?ws)) / (pw * ppos))))"
    apply (rule exI [of _ "real ?c / real ?N"])
    apply (rule exI [of _ "real ?P / real ?N"])
    apply (rule exI [of _ "real ?Q / real ?N"])
    using pw pp pn a b by (intro conjI) blast+
  from c have "0 < context_count r" by (simp add: cc)
  with ex show ?thesis by blast
qed

theorem smoothed_pmi_is_a_number_witness:
  "pmi_df [] sample_df =
     Inr [with_columns 9 5 4 (''good'', 5, 5, 0), with_columns 9 5 4 (''bad'', 4, 0, 4)]
   \<and> with_columns 9 5 4 (''good'', 5, 5, 0)
       \<in> set [with_columns 9 5 4 (''good'', 5, 5, 0), with_columns 9 5 4 (''bad'', 4, 0, 4)]
   \<and> with_columns 9 5 4 (''bad'', 4, 0, 4)
       \<in> set [with_columns 9 5 4 (''good'', 5, 5, 0), with_columns 9 5 4 (''bad'', 4, 0, 4)]
   \<and> neg_count (with_columns 9 5 4 (''good'', 5, 5, 0)) = 0
   \<and> pmi_negative (with_columns 9 5 4 (''good'', 5, 5, 0)) = Some (log 2 ((1 / 9) / ((5 / 9) * (4 / 9))))
   \<and> pos_count (with_columns 9 5 4 (''bad'', 4, 0, 4)) = 0
   \<and> pmi_positive (with_columns 9 5 4 (''bad'', 4, 0, 4)) = Some (log 2 ((1 / 9) / ((4 / 9) * (5 / 9))))"
proof -
  let ?g = "with_columns 9 5 4 (''good'', 5, 5, 0)"
  let ?b = "with_columns 9 5 4 (''bad'', 4, 0, 4)"
  have mg: "?g \<in> set [?g, ?b]" and mb: "?b \<in> set [?g, ?b]" by simp_all
  have N: "real (total_tokens (clean_words_df [] sample_df)) = 9"
    by (simp add: sample_words total_tokens_def sample_count)
  have ng: "neg_count ?g = 0" and pb: "pos_count ?b = 0"
    by (simp_all add: with_columns_counts)
  have pg: "p_w ?g = Some (5 / 9)" "p_neg ?g = Some (4 / 9)"
    and pbad: "p_w ?b = Some (4 / 9)" "p_pos ?b = Some (5 / 9)"
    by (simp_all add: with_columns_probs)
  from smoothed_pmi_is_a_number [OF sample_pmi mg]
  obtain pw pneg where g: "p_w ?g = Some pw" "p_neg ?g = Some pneg"
    "neg_count ?g = 0 \<longrightarrow>
       0 < (real alpha / real (total_tokens (clean_words_df [] sample_df))) / (pw * pneg) \<and>
       pmi_negative ?g =
         Some (log 2 ((real alpha / real (total_tokens (clean_words_df [] sample_df))) / (pw * pneg)))"
    by (elim conjE exE) (rule that, assumption+)
  from g(1) pg(1) have pw: "pw = 5 / 9" by (simp only: option.inject)
  from g(2) pg(2) have pneg: "pneg = 4 / 9" by (simp only: option.inject)
  from g(3) ng have "pmi_negative ?g =
      Some (log 2 ((real alpha / real (total_tokens (clean_words_df [] sample_df))) / (pw * pneg)))"
    by (elim impE conjE) assumption+
  then have a: "pmi_negative ?g = Some (log 2 ((1 / 9) / ((5 / 9) * (4 / 9))))"
    unfolding N alpha_def pw pneg by simp
  from smoothed_pmi_is_a_number [OF sample_pmi mb]
  obtain qw qpos where h: "p_w ?b = Some qw" "p_pos ?b = Some qpos"
    "pos_count ?b = 0 \<longrightarrow>
       0 < (real alpha / real (total_tokens (clean_words_df [] sample_df))) / (qw * qpos) \<and>
       pmi_positive ?b =
         Some (log 2 ((real alpha / real (total_tokens (clean_words_df [] sample_df))) / (qw * qpos)))"
    by (elim conjE exE) (rule that, assumption+)
  from h(1) pbad(1) have qw: "qw = 4 / 9" by (simp only: option.inject)
  from h(2) pbad(2) have qpos: "qpos = 5 / 9" by (simp only: option.inject)
  from h(3) pb have "pmi_positive ?b =
      Some (log 2 ((real alpha / real (total_tokens (clean_words_df [] sample_df))) / (qw * qpos)))"
    by (elim impE conjE) assumption+
  then have b: "pmi_positive ?b = Some (log 2 ((1 / 9) / ((4 / 9) * (5 / 9))))"
    unfolding N alpha_def qw qpos by simp
  from sample_pmi mg mb ng pb a b show ?thesis by blast
qed

text \<open>
  C10. A row whose comment is null, or has at most 20 characters (so also exactly 20),
  can be removed from the input without changing anything: the cleaned rows, the token
  stream, the three frequency tables, the scored table and the saved tables are the same.
\<close>

theorem null_or_short_comment_contributes_nothing:
  assumes "comment = None \<or> (\<exists>s. comment = Some s \<and> length s \<le> 20)"
  shows "df_clean (before @ comment # after) = df_clean (before @ after) \<and>
         clean_words_df sw (before @ comment # after) = clean_words_df sw (before @ after) \<and>
         word_counts (clean_words_df sw (before @ comment # after)) =
           word_counts (clean_words_df sw (before @ after)) \<and>
         pos_counts (clean_words_df sw (before @ comment # after)) =
           pos_counts (clean_words_df sw (before @ after)) \<and>
         neg_counts (clean_words_df sw (before @ comment # after)) =
           neg_counts (clean_words_df sw (before @ after)) \<and>
         pmi_df sw (before @ comment # after) = pmi_df sw (before @ after) \<and>
         run_pmi_reddit sw (before @ comment # after) = run_pmi_reddit sw (before @ after)"
proof -
  from assms have d: "df_clean (before @ comment # after) = df_clean (before @ after)"
    by (rule df_clean_drop)
  then have w: "clean_words_df sw (before @ comment # after) = clean_words_df sw (before @ after)"
    by (rule clean_words_df_cong)
  show ?thesis unfolding run_pmi_reddit_def pmi_df_def d w by simp
qed

theorem null_or_short_comment_contributes_nothing_witness:
  "length short_comment = 20 \<and>
   (Some short_comment = None \<or> (\<exists>s. Some short_comment = Some s \<and> length s \<le> 20)) \<and>
   clean_words_df [] (sample_df @ Some short_comment # []) = clean_words_df [] (sample_df @ []) \<and>
   clean_words_df [] ([] @ None # sample_df) = clean_words_df [] ([] @ sample_df) \<and>
   run_pmi_reddit [] (sample_df @ Some short_comment # []) = run_pmi_reddit [] (sample_df @ [])"
proof -
  have l: "length short_comment = 20" by (simp add: short_comment_def)
  then have h: "Some short_comment = None \<or> (\<exists>s. Some short_comment = Some s \<and> length s \<le> 20)"
    by simp
  have n: "(None :: string option) = None \<or> (\<exists>s. None = Some s \<and> length s \<le> 20)" by simp
  from null_or_short_comment_contributes_nothing [OF h, of sample_df "[]" "[]"]
    null_or_short_comment_contributes_nothing [OF n, of "[]" sample_df "[]"] l h
  show ?thesis by (intro conjI) blast+
qed

end
